theory Spec2Isabelle
  imports Main "HOL-Library.Multiset"
begin

section \<open>Car sequencing with colours: the instance and its evaluator\<close>

text \<open>
  A shallow embedding of \<^verbatim>\<open>car_sequencing_color_problem.py\<close>. Python integers are
  \<open>int\<close>, Python lists are HOL lists read through \<open>py_index\<close> (negative indices count
  from the end, anything else out of range raises), and every exception the code can
  raise is a value \<open>Inl e\<close> of the result type \<open>pyerr + 'a\<close>.
\<close>

subsection \<open>Python values and errors\<close>

datatype pyerr = TypeError | IndexError | ValueError | StopIteration

text \<open>
  The elements a candidate sequence may hold: integers (Python's \<open>bool\<close> is an integer,
  \<open>False = 0\<close> and \<open>True = 1\<close>) and \<open>None\<close>, the value that is neither ordered nor usable
  as an index. Floats and nested containers are outside the model.
\<close>

datatype pyelem = PInt int | PNone

text \<open>
  The values \<open>evaluate_solution\<close> may be handed: a list or a tuple of elements, or
  something that is neither (\<open>None\<close>, a string, a number, or any other object, named by
  its type: a set, a generator, a dict).
\<close>

datatype pyval =
    PyNone
  | PyStr string
  | PyNum int
  | PyObject string
  | PyList "pyelem list"
  | PyTuple "pyelem list"

definition py_index :: "'a list \<Rightarrow> int \<Rightarrow> pyerr + 'a" where
  "py_index xs i =
     (if 0 \<le> i \<and> i < int (length xs) then Inr (xs ! nat i)
      else if i < 0 \<and> 0 \<le> int (length xs) + i then Inr (xs ! nat (int (length xs) + i))
      else Inl IndexError)"

text \<open>\<open>range(a, b)\<close> over Python integers; \<open>range(n)\<close> is \<open>py_range 0 n\<close>.\<close>

definition py_range :: "int \<Rightarrow> int \<Rightarrow> int list" where
  "py_range a b = [a..b - 1]"

text \<open>Indexing a list with a candidate element: only an integer is an index.\<close>

fun elem_index :: "'a list \<Rightarrow> pyelem \<Rightarrow> pyerr + 'a" where
  "elem_index xs (PInt i) = py_index xs i"
| "elem_index xs PNone = Inl TypeError"

fun all_ints :: "pyelem list \<Rightarrow> int list option" where
  "all_ints [] = Some []"
| "all_ints (PInt i # xs) = (case all_ints xs of None \<Rightarrow> None | Some js \<Rightarrow> Some (i # js))"
| "all_ints (PNone # xs) = None"

text \<open>
  \<open>sorted(xs)\<close>: a list of fewer than two elements is returned without a single
  comparison; otherwise every element is compared with another one at least once, and
  a comparison \<open><\<close> with \<open>None\<close> on either side raises \<open>TypeError\<close>.
\<close>

definition py_sorted :: "pyelem list \<Rightarrow> pyerr + pyelem list" where
  "py_sorted xs =
     (if length xs \<le> 1 then Inr xs
      else (case all_ints xs of
              None \<Rightarrow> Inl TypeError
            | Some js \<Rightarrow> Inr (map PInt (sort js))))"

subsection \<open>The instance\<close>

definition COLOR_HIGH_LOW :: int where "COLOR_HIGH_LOW = 0"
definition HIGH_LOW_COLOR :: int where "HIGH_LOW_COLOR = 1"
definition HIGH_COLOR_LOW :: int where "HIGH_COLOR_LOW = 2"
definition COLOR_HIGH :: int where "COLOR_HIGH = 3"
definition HIGH_COLOR :: int where "HIGH_COLOR = 4"

record car_problem =
  nb_positions :: int
  nb_options :: int
  paint_batch_limit :: int
  objective_order :: int
  start_position :: int
  max_cars_per_window :: "int list"
  window_size :: "int list"
  is_priority_option :: "bool list"
  has_low_priority_options :: bool
  color_class :: "int list"
  options_data :: "bool list list"
  initial_sequence :: "int list"

subsection \<open>evaluate_solution\<close>

text \<open>
  \<open>PENALTY = 1e9\<close> is a float whose value is the integer \<open>10^9\<close>; Python compares
  and equates numbers by value, so the score is modelled as an integer throughout.
\<close>

definition PENALTY :: int where "PENALTY = 1000000000"

definition M :: int where "M = 10000"

text \<open>\<open>isinstance(solution, (list, tuple))\<close>, with the elements when it holds.\<close>

fun as_sequence :: "pyval \<Rightarrow> pyelem list option" where
  "as_sequence (PyList xs) = Some xs"
| "as_sequence (PyTuple xs) = Some xs"
| "as_sequence PyNone = None"
| "as_sequence (PyStr s) = None"
| "as_sequence (PyNum n) = None"
| "as_sequence (PyObject t) = None"

text \<open>
  The loop over the fixed prefix: \<open>Inr False\<close> is the early \<open>return PENALTY\<close>,
  \<open>Inr True\<close> is the loop running to its end.
\<close>

fun fixed_loop :: "pyelem list \<Rightarrow> int list \<Rightarrow> pyerr + bool" where
  "fixed_loop solution [] = Inr True"
| "fixed_loop solution (p # ps) =
     (case py_index solution p of
        Inl e \<Rightarrow> Inl e
      | Inr v \<Rightarrow> if v \<noteq> PInt p then Inr False else fixed_loop solution ps)"

text \<open>
  The three checks at the head of \<open>evaluate_solution\<close>: \<open>Inr None\<close> is
  \<open>return PENALTY\<close>, \<open>Inr (Some xs)\<close> is a candidate that goes on to be scored.
\<close>

definition validate :: "car_problem \<Rightarrow> pyval \<Rightarrow> pyerr + pyelem list option" where
  "validate inst solution =
     (case as_sequence solution of
        None \<Rightarrow> Inr None
      | Some xs \<Rightarrow>
          if int (length xs) \<noteq> nb_positions inst then Inr None
          else (case py_sorted xs of
                  Inl e \<Rightarrow> Inl e
                | Inr ys \<Rightarrow>
                    if ys \<noteq> map PInt (py_range 0 (nb_positions inst)) then Inr None
                    else (case fixed_loop xs (py_range 0 (start_position inst)) of
                            Inl e \<Rightarrow> Inl e
                          | Inr False \<Rightarrow> Inr None
                          | Inr True \<Rightarrow> Inr (Some xs))))"

text \<open>\<open>sequence = [self.initial_sequence[i] for i in solution]\<close>\<close>

fun reconstruct :: "int list \<Rightarrow> pyelem list \<Rightarrow> pyerr + int list" where
  "reconstruct base [] = Inr []"
| "reconstruct base (i # rest) =
     (case elem_index base i of
        Inl e \<Rightarrow> Inl e
      | Inr c \<Rightarrow>
          (case reconstruct base rest of
             Inl e \<Rightarrow> Inl e
           | Inr cs \<Rightarrow> Inr (c # cs)))"

text \<open>The colour loop, with \<open>objective_color\<close> as the accumulator.\<close>

fun color_loop :: "int list \<Rightarrow> int list \<Rightarrow> int list \<Rightarrow> int \<Rightarrow> pyerr + int" where
  "color_loop colors sequence [] objective_color = Inr objective_color"
| "color_loop colors sequence (p # ps) objective_color =
     (case py_index sequence p of
        Inl e \<Rightarrow> Inl e
      | Inr a \<Rightarrow>
     (case py_index colors a of
        Inl e \<Rightarrow> Inl e
      | Inr ca \<Rightarrow>
     (case py_index sequence (p + 1) of
        Inl e \<Rightarrow> Inl e
      | Inr b \<Rightarrow>
     (case py_index colors b of
        Inl e \<Rightarrow> Inl e
      | Inr cb \<Rightarrow>
          color_loop colors sequence ps
            (if ca \<noteq> cb then objective_color + 1 else objective_color)))))"

text \<open>The innermost loop \<open>for k in range(win)\<close>, with \<open>count\<close> as the accumulator.\<close>

fun count_loop :: "bool list list \<Rightarrow> int list \<Rightarrow> int \<Rightarrow> int \<Rightarrow> int list \<Rightarrow> int \<Rightarrow> pyerr + int" where
  "count_loop opts sequence opt j [] cnt = Inr cnt"
| "count_loop opts sequence opt j (k # ks) cnt =
     (case py_index sequence (j + k) of
        Inl e \<Rightarrow> Inl e
      | Inr car_class \<Rightarrow>
     (case py_index opts car_class of
        Inl e \<Rightarrow> Inl e
      | Inr row \<Rightarrow>
     (case py_index row opt of
        Inl e \<Rightarrow> Inl e
      | Inr b \<Rightarrow> count_loop opts sequence opt j ks (if b then cnt + 1 else cnt))))"

text \<open>
  The loop over the window starts \<open>j\<close> of one option; the state is the pair
  \<open>(objective_high_priority, objective_low_priority)\<close>.
\<close>

fun window_loop ::
  "car_problem \<Rightarrow> int list \<Rightarrow> int \<Rightarrow> int \<Rightarrow> int \<Rightarrow> int list \<Rightarrow> int \<times> int \<Rightarrow> pyerr + int \<times> int" where
  "window_loop inst sequence opt win max_allowed [] hl = Inr hl"
| "window_loop inst sequence opt win max_allowed (j # js) hl =
     (case count_loop (options_data inst) sequence opt j (py_range 0 win) 0 of
        Inl e \<Rightarrow> Inl e
      | Inr cnt \<Rightarrow>
     (case py_index (is_priority_option inst) opt of
        Inl e \<Rightarrow> Inl e
      | Inr prio \<Rightarrow>
          window_loop inst sequence opt win max_allowed js
            (if prio then (fst hl + max (cnt - max_allowed) 0, snd hl)
             else (fst hl, snd hl + max (cnt - max_allowed) 0))))"

text \<open>The loop \<open>for o in range(self.nb_options)\<close>.\<close>

fun option_loop :: "car_problem \<Rightarrow> int list \<Rightarrow> int list \<Rightarrow> int \<times> int \<Rightarrow> pyerr + int \<times> int" where
  "option_loop inst sequence [] hl = Inr hl"
| "option_loop inst sequence (opt # os) hl =
     (case py_index (window_size inst) opt of
        Inl e \<Rightarrow> Inl e
      | Inr win \<Rightarrow>
     (case py_index (max_cars_per_window inst) opt of
        Inl e \<Rightarrow> Inl e
      | Inr max_allowed \<Rightarrow>
     (case window_loop inst sequence opt win max_allowed
             (py_range (max 0 (start_position inst - win + 1)) (nb_positions inst - win + 1)) hl of
        Inl e \<Rightarrow> Inl e
      | Inr hl' \<Rightarrow> option_loop inst sequence os hl')))"

text \<open>
  The three objectives of an accepted candidate, in the order
  \<open>(objective_color, objective_high_priority, objective_low_priority)\<close>.
\<close>

definition objectives :: "car_problem \<Rightarrow> pyelem list \<Rightarrow> pyerr + int \<times> int \<times> int" where
  "objectives inst xs =
     (case reconstruct (initial_sequence inst) xs of
        Inl e \<Rightarrow> Inl e
      | Inr sequence \<Rightarrow>
     (case color_loop (color_class inst) sequence
             (py_range (max (start_position inst - 1) 0) (nb_positions inst - 1)) 0 of
        Inl e \<Rightarrow> Inl e
      | Inr objective_color \<Rightarrow>
     (case option_loop inst sequence (py_range 0 (nb_options inst)) (0, 0) of
        Inl e \<Rightarrow> Inl e
      | Inr hl \<Rightarrow> Inr (objective_color, fst hl, snd hl))))"

text \<open>The lexicographic combination, an \<open>if\<close>/\<open>elif\<close> chain on \<open>objective_order\<close>.\<close>

definition combine :: "int \<Rightarrow> int \<Rightarrow> int \<Rightarrow> int \<Rightarrow> int" where
  "combine order objective_color objective_high_priority objective_low_priority =
     (if order = COLOR_HIGH_LOW then
        objective_color * M ^ 2 + objective_high_priority * M + objective_low_priority
      else if order = HIGH_LOW_COLOR then
        objective_high_priority * M ^ 2 + objective_low_priority * M + objective_color
      else if order = HIGH_COLOR_LOW then
        objective_high_priority * M ^ 2 + objective_color * M + objective_low_priority
      else if order = COLOR_HIGH then
        objective_color * M + objective_high_priority
      else if order = HIGH_COLOR then
        objective_high_priority * M + objective_color
      else objective_color + objective_high_priority + objective_low_priority)"

definition evaluate_solution :: "car_problem \<Rightarrow> pyval \<Rightarrow> pyerr + int" where
  "evaluate_solution inst solution =
     (case validate inst solution of
        Inl e \<Rightarrow> Inl e
      | Inr None \<Rightarrow> Inr PENALTY
      | Inr (Some xs) \<Rightarrow>
          (case objectives inst xs of
             Inl e \<Rightarrow> Inl e
           | Inr (c, h, l) \<Rightarrow> Inr (combine (objective_order inst) c h l)))"

subsection \<open>Instance construction\<close>

text \<open>
  \<open>_load_instance\<close> reads the whitespace-separated tokens of the instance file one by
  one with \<open>int(next(it))\<close>. The model takes the file as the list of the integers its
  tokens denote (a token that is no integer literal is outside the model); running out
  of tokens is \<open>StopIteration\<close>.
\<close>

text \<open>
  The loop over the options: each turn reads \<open>max_cars_per_window\<close>, \<open>window_size\<close>
  and the priority flag; the state is the three lists and \<open>has_low\<close>.
\<close>

fun read_options ::
  "nat \<Rightarrow> int list \<Rightarrow> int list \<times> int list \<times> bool list \<times> bool
     \<Rightarrow> pyerr + (int list \<times> int list \<times> bool list \<times> bool) \<times> int list" where
  "read_options 0 ts acc = Inr (acc, ts)"
| "read_options (Suc k) (a # b # c # ts) (mx, ws, pr, has_low) =
     read_options k ts (mx @ [a], ws @ [b], pr @ [c = 1], has_low \<or> c \<noteq> 1)"
| "read_options (Suc k) ts acc = Inl StopIteration"

text \<open>\<open>opts = [(int(next(it)) == 1) for _ in range(self.nb_options)]\<close>\<close>

fun read_flags :: "nat \<Rightarrow> int list \<Rightarrow> pyerr + bool list \<times> int list" where
  "read_flags 0 ts = Inr ([], ts)"
| "read_flags (Suc k) [] = Inl StopIteration"
| "read_flags (Suc k) (t # ts) =
     (case read_flags k ts of
        Inl e \<Rightarrow> Inl e
      | Inr (bs, ts') \<Rightarrow> Inr ((t = 1) # bs, ts'))"

text \<open>
  The loop over the classes: colour, number of cars, then one flag per option; the
  state is \<open>(color_class, nb_cars_per_class, options_data)\<close>.
\<close>

fun read_classes ::
  "nat \<Rightarrow> nat \<Rightarrow> int list \<Rightarrow> int list \<times> int list \<times> bool list list
     \<Rightarrow> pyerr + (int list \<times> int list \<times> bool list list) \<times> int list" where
  "read_classes 0 n_opts ts acc = Inr (acc, ts)"
| "read_classes (Suc k) n_opts (color # cnt # ts) (cc, cars, od) =
     (case read_flags n_opts ts of
        Inl e \<Rightarrow> Inl e
      | Inr (opts, ts') \<Rightarrow> read_classes k n_opts ts' (cc @ [color], cars @ [cnt], od @ [opts]))"
| "read_classes (Suc k) n_opts ts acc = Inl StopIteration"

text \<open>
  \<open>self.initial_sequence.extend([c] * nb_cars_per_class[c])\<close> for each class;
  a list times a negative number is empty.
\<close>

fun extend_loop :: "int list \<Rightarrow> int list \<Rightarrow> int list \<Rightarrow> pyerr + int list" where
  "extend_loop cars [] sq = Inr sq"
| "extend_loop cars (c # cs) sq =
     (case py_index cars c of
        Inl e \<Rightarrow> Inl e
      | Inr cnt \<Rightarrow> extend_loop cars cs (sq @ replicate (nat cnt) c))"

text \<open>The adjustment of \<open>objective_order\<close> when no option is of low priority.\<close>

definition adjust_order :: "bool \<Rightarrow> int \<Rightarrow> int" where
  "adjust_order has_low order =
     (if \<not> has_low then
        (if order = COLOR_HIGH_LOW then COLOR_HIGH
         else if order = HIGH_COLOR_LOW then HIGH_COLOR
         else if order = HIGH_LOW_COLOR then HIGH_COLOR
         else order)
      else order)"

fun load_instance :: "int list \<Rightarrow> pyerr + car_problem" where
  "load_instance (n_pos # n_opts # n_classes # batch # order # start # ts) =
     (case read_options (nat n_opts) ts ([], [], [], False) of
        Inl e \<Rightarrow> Inl e
      | Inr ((mx, ws, pr, has_low), ts1) \<Rightarrow>
     (case read_classes (nat n_classes) (nat n_opts) ts1 ([], [], []) of
        Inl e \<Rightarrow> Inl e
      | Inr ((cc, cars, od), ts2) \<Rightarrow>
     (case extend_loop cars (py_range 0 n_classes) [] of
        Inl e \<Rightarrow> Inl e
      | Inr sq \<Rightarrow>
          if int (length sq) \<noteq> n_pos then Inl ValueError
          else Inr \<lparr> nb_positions = n_pos, nb_options = n_opts, paint_batch_limit = batch,
                     objective_order = adjust_order has_low order, start_position = start,
                     max_cars_per_window = mx, window_size = ws, is_priority_option = pr,
                     has_low_priority_options = has_low, color_class = cc,
                     options_data = od, initial_sequence = sq \<rparr>)))"
| "load_instance ts = Inl StopIteration"

text \<open>
  The keyword arguments of \<open>__init__\<close>, each \<open>None\<close> by default. The instance file is
  given by the integers it holds.
\<close>

record init_args =
  arg_instance_file :: "int list option"
  arg_nb_positions :: "int option"
  arg_nb_options :: "int option"
  arg_paint_batch_limit :: "int option"
  arg_objective_order :: "int option"
  arg_start_position :: "int option"
  arg_max_cars_per_window :: "int list option"
  arg_window_size :: "int list option"
  arg_is_priority_option :: "bool list option"
  arg_has_low_priority_options :: "bool option"
  arg_color_class :: "int list option"
  arg_options_data :: "bool list list option"
  arg_initial_sequence :: "int list option"

definition init :: "init_args \<Rightarrow> pyerr + car_problem" where
  "init a =
     (case arg_instance_file a of
        Some tokens \<Rightarrow> load_instance tokens
      | None \<Rightarrow>
          if arg_nb_positions a = None \<or> arg_nb_options a = None
             \<or> arg_paint_batch_limit a = None \<or> arg_objective_order a = None
             \<or> arg_start_position a = None \<or> arg_max_cars_per_window a = None
             \<or> arg_window_size a = None \<or> arg_is_priority_option a = None
             \<or> arg_has_low_priority_options a = None \<or> arg_color_class a = None
             \<or> arg_options_data a = None \<or> arg_initial_sequence a = None
          then Inl ValueError
          else Inr \<lparr> nb_positions = the (arg_nb_positions a),
                     nb_options = the (arg_nb_options a),
                     paint_batch_limit = the (arg_paint_batch_limit a),
                     objective_order = the (arg_objective_order a),
                     start_position = the (arg_start_position a),
                     max_cars_per_window = the (arg_max_cars_per_window a),
                     window_size = the (arg_window_size a),
                     is_priority_option = the (arg_is_priority_option a),
                     has_low_priority_options = the (arg_has_low_priority_options a),
                     color_class = the (arg_color_class a),
                     options_data = the (arg_options_data a),
                     initial_sequence = the (arg_initial_sequence a) \<rparr>)"

subsection \<open>random_solution\<close>

text \<open>
  Modelled from the Python standard library, which is not part of this repository:
  \<open>random.shuffle(x)\<close> runs \<open>i\<close> from \<open>len(x) - 1\<close> down to \<open>1\<close>, draws
  \<open>j = randbelow(i + 1)\<close> with \<open>0 \<le> j \<le> i\<close> and swaps \<open>x[i]\<close> and \<open>x[j]\<close>. The source
  of randomness is a parameter: \<open>src k\<close> is the raw draw for the bound \<open>k\<close>, reduced
  into the range \<open>randbelow\<close> promises.
\<close>

definition randbelow :: "(nat \<Rightarrow> nat) \<Rightarrow> nat \<Rightarrow> nat" where
  "randbelow src k = src k mod k"

fun shuffle_loop :: "(nat \<Rightarrow> nat) \<Rightarrow> nat \<Rightarrow> 'a list \<Rightarrow> 'a list" where
  "shuffle_loop src 0 x = x"
| "shuffle_loop src (Suc i) x =
     (let j = randbelow src (Suc i + 1)
      in shuffle_loop src i (x[Suc i := x ! j, j := x ! Suc i]))"

definition shuffle :: "(nat \<Rightarrow> nat) \<Rightarrow> 'a list \<Rightarrow> 'a list" where
  "shuffle src x = shuffle_loop src (length x - 1) x"

definition random_solution :: "(nat \<Rightarrow> nat) \<Rightarrow> car_problem \<Rightarrow> int list" where
  "random_solution src inst =
     (let fixed = py_range 0 (start_position inst);
          remaining = py_range (start_position inst) (nb_positions inst)
      in fixed @ shuffle src remaining)"

section \<open>The specification's reading\<close>

text \<open>
  The invariants the data model asks of an instance: the start position lies within
  the sequence, the baseline sequence has one valid class index per position, and
  every per-option array and every class's requirement vector has one entry per option.
\<close>

definition valid_instance :: "car_problem \<Rightarrow> bool" where
  "valid_instance inst \<longleftrightarrow>
     0 \<le> start_position inst \<and> start_position inst \<le> nb_positions inst
   \<and> int (length (initial_sequence inst)) = nb_positions inst
   \<and> list_all (\<lambda>c. 0 \<le> c \<and> c < int (length (color_class inst))) (initial_sequence inst)
   \<and> length (options_data inst) = length (color_class inst)
   \<and> int (length (max_cars_per_window inst)) = nb_options inst
   \<and> int (length (window_size inst)) = nb_options inst
   \<and> int (length (is_priority_option inst)) = nb_options inst
   \<and> list_all (\<lambda>row. int (length row) = nb_options inst) (options_data inst)"

text \<open>
  A valid candidate: as long as the sequence, a permutation of the positions, and equal
  to its own index on the fixed prefix.
\<close>

definition valid_candidate :: "car_problem \<Rightarrow> int list \<Rightarrow> bool" where
  "valid_candidate inst cand \<longleftrightarrow>
     int (length cand) = nb_positions inst
   \<and> sort cand = [0..nb_positions inst - 1]
   \<and> list_all (\<lambda>p. cand ! nat p = p) [0..start_position inst - 1]"

text \<open>\<open>sequence[p] = baseline_sequence[candidate[p]]\<close>\<close>

definition spec_sequence :: "car_problem \<Rightarrow> int list \<Rightarrow> int list" where
  "spec_sequence inst cand = map (\<lambda>i. initial_sequence inst ! nat i) cand"

text \<open>
  The number of positions \<open>p\<close> from \<open>max(start_position - 1, 0)\<close> to
  \<open>position_count - 2\<close> whose colour differs from that of \<open>p + 1\<close>.
\<close>

definition spec_color_changes :: "car_problem \<Rightarrow> int list \<Rightarrow> int" where
  "spec_color_changes inst cand =
     int (length (filter
       (\<lambda>p. color_class inst ! nat (spec_sequence inst cand ! nat p)
            \<noteq> color_class inst ! nat (spec_sequence inst cand ! nat (p + 1)))
       [max (start_position inst - 1) 0..nb_positions inst - 2]))"

text \<open>The number of positions \<open>j..j+w-1\<close> whose class requires the option.\<close>

definition spec_window_count :: "car_problem \<Rightarrow> int list \<Rightarrow> int \<Rightarrow> int \<Rightarrow> int" where
  "spec_window_count inst cand opt j =
     int (length (filter
       (\<lambda>p. options_data inst ! nat (spec_sequence inst cand ! nat p) ! nat opt)
       [j..j + window_size inst ! nat opt - 1]))"

definition spec_window_violation :: "car_problem \<Rightarrow> int list \<Rightarrow> int \<Rightarrow> int \<Rightarrow> int" where
  "spec_window_violation inst cand opt j =
     max (spec_window_count inst cand opt j - max_cars_per_window inst ! nat opt) 0"

text \<open>
  The violations of one option, summed over the window starts from
  \<open>max(0, start_position - w + 1)\<close> to \<open>position_count - w\<close>.
\<close>

definition spec_option_total :: "car_problem \<Rightarrow> int list \<Rightarrow> int \<Rightarrow> int" where
  "spec_option_total inst cand opt =
     sum_list (map (spec_window_violation inst cand opt)
       [max 0 (start_position inst - window_size inst ! nat opt + 1)
        ..nb_positions inst - window_size inst ! nat opt])"

definition spec_high_total :: "car_problem \<Rightarrow> int list \<Rightarrow> int" where
  "spec_high_total inst cand =
     sum_list (map (spec_option_total inst cand)
       (filter (\<lambda>opt. is_priority_option inst ! nat opt) [0..nb_options inst - 1]))"

definition spec_low_total :: "car_problem \<Rightarrow> int list \<Rightarrow> int" where
  "spec_low_total inst cand =
     sum_list (map (spec_option_total inst cand)
       (filter (\<lambda>opt. \<not> is_priority_option inst ! nat opt) [0..nb_options inst - 1]))"

section \<open>Concrete instances\<close>

text \<open>
  Five positions, two classes of colours 1 and 2 in alternation, no option; the
  objective order and the start position are left open.
\<close>

definition alternating_example :: "int \<Rightarrow> int \<Rightarrow> car_problem" where
  "alternating_example order start =
     \<lparr> nb_positions = 5, nb_options = 0, paint_batch_limit = 5,
       objective_order = order, start_position = start,
       max_cars_per_window = [], window_size = [], is_priority_option = [],
       has_low_priority_options = False, color_class = [1, 2],
       options_data = [[], []], initial_sequence = [0, 1, 0, 1, 0] \<rparr>"

text \<open>
  Three cars of one class that requires the single option, at most one such car in
  any window of two; the option is of high priority or not.
\<close>

definition window_example :: "bool \<Rightarrow> car_problem" where
  "window_example prio =
     \<lparr> nb_positions = 3, nb_options = 1, paint_batch_limit = 3,
       objective_order = (if prio then COLOR_HIGH else COLOR_HIGH_LOW), start_position = 0,
       max_cars_per_window = [1], window_size = [2], is_priority_option = [prio],
       has_low_priority_options = (\<not> prio), color_class = [1],
       options_data = [[True]], initial_sequence = [0, 0, 0] \<rparr>"




text \<open>
  Two cars of one class that requires the single, low-priority option, at most one
  such car in a window of two, under the order colour, high.
\<close>

definition low_ignored_example :: car_problem where
  "low_ignored_example =
     \<lparr> nb_positions = 2, nb_options = 1, paint_batch_limit = 2,
       objective_order = COLOR_HIGH, start_position = 0,
       max_cars_per_window = [1], window_size = [2], is_priority_option = [False],
       has_low_priority_options = True, color_class = [1],
       options_data = [[True]], initial_sequence = [0, 0] \<rparr>"

definition low_ignored_tokens :: "int list" where
  "low_ignored_tokens = [2, 1, 1, 2, 3, 0,  1, 2, 0,  1, 2, 1]"

text \<open>
  The same data given twice, once as keyword arguments and once as a file: one
  high-priority option, no low-priority one, and the order colour, high, low.
\<close>

definition structured_args :: init_args where
  "structured_args =
     \<lparr> arg_instance_file = None, arg_nb_positions = Some 3, arg_nb_options = Some 1,
       arg_paint_batch_limit = Some 3, arg_objective_order = Some COLOR_HIGH_LOW,
       arg_start_position = Some 0, arg_max_cars_per_window = Some [1],
       arg_window_size = Some [2], arg_is_priority_option = Some [True],
       arg_has_low_priority_options = Some False, arg_color_class = Some [1],
       arg_options_data = Some [[True]], arg_initial_sequence = Some [0, 0, 0] \<rparr>"

definition file_args :: init_args where
  "file_args =
     \<lparr> arg_instance_file = Some [3, 1, 1, 3, 0, 0,  1, 2, 1,  1, 3, 1],
       arg_nb_positions = None, arg_nb_options = None,
       arg_paint_batch_limit = None, arg_objective_order = None,
       arg_start_position = None, arg_max_cars_per_window = None,
       arg_window_size = None, arg_is_priority_option = None,
       arg_has_low_priority_options = None, arg_color_class = None,
       arg_options_data = None, arg_initial_sequence = None \<rparr>"


section \<open>Properties of the building blocks\<close>

lemma py_index_inside: "0 \<le> i \<Longrightarrow> i < int (length xs) \<Longrightarrow> py_index xs i = Inr (xs ! nat i)"
  by (simp add: py_index_def)

lemma all_ints_map: "all_ints (map PInt xs) = Some xs"
  by (induction xs) simp_all

lemma sort_short: "length (xs :: int list) \<le> 1 \<Longrightarrow> sort xs = xs"
  by (cases xs) simp_all

lemma py_sorted_ints: "py_sorted (map PInt xs) = Inr (map PInt (sort xs))"
  by (simp add: py_sorted_def all_ints_map sort_short)

lemma fixed_loop_ints:
  "\<forall>p\<in>set ps. 0 \<le> p \<and> p < int (length cand) \<Longrightarrow>
   fixed_loop (map PInt cand) ps = Inr (list_all (\<lambda>p. cand ! nat p = p) ps)"
  by (induction ps) (auto simp add: py_index_inside nat_less_iff)

lemma fixed_loop_mismatch:
  "sorted ps \<Longrightarrow> \<forall>q\<in>set ps. 0 \<le> q \<Longrightarrow> p \<in> set ps \<Longrightarrow> p < int (length cand) \<Longrightarrow>
   cand ! nat p \<noteq> p \<Longrightarrow> fixed_loop (map PInt cand) ps = Inr False"
proof (induction ps)
  case Nil
  then show ?case by simp
next
  case (Cons q ps)
  have q: "0 \<le> q" "q \<le> p" using Cons.prems by auto
  then have i: "py_index (map PInt cand) q = Inr (PInt (cand ! nat q))"
    using Cons.prems(4) by (simp add: py_index_inside nat_less_iff)
  show ?case
  proof (cases "cand ! nat q = q")
    case True
    then have "p \<in> set ps" using Cons.prems(3,5) by auto
    then have "fixed_loop (map PInt cand) ps = Inr False"
      using Cons.IH Cons.prems by simp
    then show ?thesis by (simp add: i True)
  next
    case False
    then show ?thesis by (simp add: i)
  qed
qed

lemma reconstruct_ints:
  "\<forall>i\<in>set cand. 0 \<le> i \<and> i < int (length base) \<Longrightarrow>
   reconstruct base (map PInt cand) = Inr (map (\<lambda>i. base ! nat i) cand)"
  by (induction cand) (simp_all add: py_index_inside)

lemma color_loop_count:
  "\<forall>p\<in>set ps. 0 \<le> p \<and> p + 1 < int (length sq) \<Longrightarrow>
   \<forall>c\<in>set sq. 0 \<le> c \<and> c < int (length colors) \<Longrightarrow>
   color_loop colors sq ps acc =
     Inr (acc + int (length (filter (\<lambda>p. colors ! nat (sq ! nat p) \<noteq> colors ! nat (sq ! nat (p + 1))) ps)))"
proof (induction ps arbitrary: acc)
  case Nil
  then show ?case by simp
next
  case (Cons p ps)
  have a: "py_index sq p = Inr (sq ! nat p)" and b: "py_index sq (p + 1) = Inr (sq ! nat (p + 1))"
    using Cons.prems(1) by (simp_all add: py_index_inside)
  have m: "sq ! nat p \<in> set sq" "sq ! nat (p + 1) \<in> set sq"
    using Cons.prems(1) by (simp_all add: nat_less_iff)
  have ca: "py_index colors (sq ! nat p) = Inr (colors ! nat (sq ! nat p))"
    and cb: "py_index colors (sq ! nat (p + 1)) = Inr (colors ! nat (sq ! nat (p + 1)))"
    using Cons.prems(2) m by (simp_all add: py_index_inside)
  show ?case
    using Cons.IH [OF _ Cons.prems(2)] Cons.prems(1) by (simp add: a b ca cb)
qed

lemma count_loop_count:
  "\<forall>k\<in>set ks. 0 \<le> j + k \<and> j + k < int (length sq) \<Longrightarrow>
   \<forall>c\<in>set sq. 0 \<le> c \<and> c < int (length opts) \<Longrightarrow>
   \<forall>row\<in>set opts. opt < int (length row) \<Longrightarrow> 0 \<le> opt \<Longrightarrow>
   count_loop opts sq opt j ks acc =
     Inr (acc + int (length (filter (\<lambda>k. opts ! nat (sq ! nat (j + k)) ! nat opt) ks)))"
proof (induction ks arbitrary: acc)
  case Nil
  then show ?case by simp
next
  case (Cons k ks)
  have a: "py_index sq (j + k) = Inr (sq ! nat (j + k))"
    using Cons.prems(1) by (simp add: py_index_inside)
  have m: "sq ! nat (j + k) \<in> set sq"
    using Cons.prems(1) by (simp add: nat_less_iff)
  have r: "py_index opts (sq ! nat (j + k)) = Inr (opts ! nat (sq ! nat (j + k)))"
    using Cons.prems(2) m by (simp add: py_index_inside)
  have "opts ! nat (sq ! nat (j + k)) \<in> set opts"
    using Cons.prems(2) m by (simp add: nat_less_iff)
  then have b: "py_index (opts ! nat (sq ! nat (j + k))) opt = Inr (opts ! nat (sq ! nat (j + k)) ! nat opt)"
    using Cons.prems(3,4) by (simp add: py_index_inside)
  show ?case
    using Cons.IH [OF _ Cons.prems(2,3,4)] Cons.prems(1) by (simp add: a r b)
qed

lemma upto_shift: "map (\<lambda>k. j + k) [0..w - 1] = [j..j + w - 1]"
proof (induction "nat w" arbitrary: w)
  case 0
  then show ?case by simp
next
  case (Suc n)
  then have w: "0 < w" "n = nat (w - 1)" by simp_all
  have "[0..w - 1] = [0..w - 1 - 1] @ [w - 1]"
    using w(1) by (simp add: upto_rec2)
  moreover have "[j..j + w - 1] = [j..j + (w - 1) - 1] @ [j + w - 1]"
    using w(1) upto_rec2 [of j "j + w - 1"] by (simp add: algebra_simps)
  ultimately show ?case
    using Suc.hyps(1) [OF w(2)] by simp
qed

lemma filter_shift:
  "length (filter (\<lambda>k. P (j + k)) [0..w - 1]) = length (filter P [j..j + w - 1])"
proof -
  have "filter P (map (\<lambda>k. j + k) [0..w - 1]) = map (\<lambda>k. j + k) (filter (\<lambda>k. P (j + k)) [0..w - 1])"
    by (simp add: filter_map comp_def)
  then show ?thesis
    by (metis length_map upto_shift)
qed

lemma window_loop_sum:
  assumes "\<forall>j\<in>set js. \<forall>k\<in>set (py_range 0 win). 0 \<le> j + k \<and> j + k < int (length sq)"
    and "\<forall>c\<in>set sq. 0 \<le> c \<and> c < int (length (options_data inst))"
    and "\<forall>row\<in>set (options_data inst). opt < int (length row)"
    and "0 \<le> opt" and "opt < int (length (is_priority_option inst))"
  shows "window_loop inst sq opt win cap js hl =
     Inr (let s = sum_list (map (\<lambda>j. max (int (length (filter
                    (\<lambda>p. options_data inst ! nat (sq ! nat p) ! nat opt) [j..j + win - 1])) - cap) 0) js)
          in if is_priority_option inst ! nat opt then (fst hl + s, snd hl) else (fst hl, snd hl + s))"
  using assms(1)
proof (induction js arbitrary: hl)
  case Nil
  then show ?case by simp
next
  case (Cons j js)
  have c: "count_loop (options_data inst) sq opt j (py_range 0 win) 0 =
      Inr (int (length (filter (\<lambda>p. options_data inst ! nat (sq ! nat p) ! nat opt) [j..j + win - 1])))"
    using count_loop_count [of "py_range 0 win" j sq "options_data inst" opt 0] Cons.prems assms(2-4)
      filter_shift [of "\<lambda>p. options_data inst ! nat (sq ! nat p) ! nat opt" j win]
    by (simp add: py_range_def)
  have p: "py_index (is_priority_option inst) opt = Inr (is_priority_option inst ! nat opt)"
    using assms(4,5) by (simp add: py_index_inside)
  have ih: "\<forall>j\<in>set js. \<forall>k\<in>set (py_range 0 win). 0 \<le> j + k \<and> j + k < int (length sq)"
    using Cons.prems by simp
  show ?case
    by (simp add: c p Cons.IH [OF ih] Let_def)
qed

subsection \<open>Valid instances and candidates\<close>

lemma valid_candidate_set:
  assumes "valid_candidate inst cand"
  shows "set cand = {0..nb_positions inst - 1}"
proof -
  have "set cand = set (sort cand)" by simp
  also have "\<dots> = set [0..nb_positions inst - 1]"
    using assms by (simp only: valid_candidate_def)
  finally show ?thesis by simp
qed

lemma spec_sequence_length:
  "valid_candidate inst cand \<Longrightarrow> int (length (spec_sequence inst cand)) = nb_positions inst"
  by (simp add: spec_sequence_def valid_candidate_def)

lemma spec_sequence_classes:
  assumes "valid_instance inst" and "valid_candidate inst cand"
  shows "\<forall>c\<in>set (spec_sequence inst cand). 0 \<le> c \<and> c < int (length (color_class inst))"
proof
  fix c assume "c \<in> set (spec_sequence inst cand)"
  then obtain i where i: "i \<in> set cand" and c: "c = initial_sequence inst ! nat i"
    by (auto simp: spec_sequence_def)
  from i have "0 \<le> i" "i < nb_positions inst"
    using valid_candidate_set [OF assms(2)] by auto
  then have "nat i < length (initial_sequence inst)"
    using assms(1) by (simp add: valid_instance_def nat_less_iff)
  then have "initial_sequence inst ! nat i \<in> set (initial_sequence inst)" by simp
  then show "0 \<le> c \<and> c < int (length (color_class inst))"
    using assms(1) c by (simp add: valid_instance_def list_all_iff)
qed

lemma reconstruct_valid:
  assumes "valid_instance inst" and "valid_candidate inst cand"
  shows "reconstruct (initial_sequence inst) (map PInt cand) = Inr (spec_sequence inst cand)"
proof -
  have "\<forall>i\<in>set cand. 0 \<le> i \<and> i < int (length (initial_sequence inst))"
    using valid_candidate_set [OF assms(2)] assms(1) by (simp add: valid_instance_def)
  then show ?thesis
    by (simp add: reconstruct_ints spec_sequence_def)
qed

lemma option_loop_sum:
  assumes vi: "valid_instance inst" and vc: "valid_candidate inst cand"
    and os: "\<forall>opt\<in>set os. 0 \<le> opt \<and> opt < nb_options inst"
  shows "option_loop inst (spec_sequence inst cand) os hl =
     Inr (fst hl + sum_list (map (spec_option_total inst cand)
                     (filter (\<lambda>opt. is_priority_option inst ! nat opt) os)),
          snd hl + sum_list (map (spec_option_total inst cand)
                     (filter (\<lambda>opt. \<not> is_priority_option inst ! nat opt) os)))"
  using os
proof (induction os arbitrary: hl)
  case Nil
  then show ?case by simp
next
  case (Cons opt os)
  let ?sq = "spec_sequence inst cand"
  let ?win = "window_size inst ! nat opt"
  let ?cap = "max_cars_per_window inst ! nat opt"
  have o: "0 \<le> opt" "opt < nb_options inst" using Cons.prems by simp_all
  have w: "py_index (window_size inst) opt = Inr ?win"
    and m: "py_index (max_cars_per_window inst) opt = Inr ?cap"
    using o vi by (simp_all add: py_index_inside valid_instance_def)
  have len: "int (length ?sq) = nb_positions inst"
    by (rule spec_sequence_length [OF vc])
  have r: "\<forall>j\<in>set (py_range (max 0 (start_position inst - ?win + 1)) (nb_positions inst - ?win + 1)).
            \<forall>k\<in>set (py_range 0 ?win). 0 \<le> j + k \<and> j + k < int (length ?sq)"
    by (auto simp: py_range_def len)
  have cl: "\<forall>c\<in>set ?sq. 0 \<le> c \<and> c < int (length (options_data inst))"
    using spec_sequence_classes [OF vi vc] vi by (simp add: valid_instance_def)
  have rows: "\<forall>row\<in>set (options_data inst). opt < int (length row)"
    using vi o by (simp add: valid_instance_def list_all_iff)
  have pr: "opt < int (length (is_priority_option inst))"
    using vi o by (simp add: valid_instance_def)
  have sv: "spec_window_violation inst cand opt =
      (\<lambda>j. max (int (length (filter (\<lambda>p. options_data inst ! nat (?sq ! nat p) ! nat opt)
                                    [j..j + ?win - 1])) - ?cap) 0)"
    by (rule ext) (simp add: spec_window_violation_def spec_window_count_def)
  have wl: "window_loop inst ?sq opt ?win ?cap
        (py_range (max 0 (start_position inst - ?win + 1)) (nb_positions inst - ?win + 1)) hl =
      Inr (if is_priority_option inst ! nat opt
           then (fst hl + spec_option_total inst cand opt, snd hl)
           else (fst hl, snd hl + spec_option_total inst cand opt))"
    unfolding window_loop_sum [OF r cl rows o(1) pr]
    by (simp add: Let_def py_range_def spec_option_total_def sv)
  have ih: "\<forall>opt\<in>set os. 0 \<le> opt \<and> opt < nb_options inst" using Cons.prems by simp
  show ?case
    by (simp add: w m wl Cons.IH [OF ih])
qed

lemma color_loop_valid:
  assumes vi: "valid_instance inst" and vc: "valid_candidate inst cand"
  shows "color_loop (color_class inst) (spec_sequence inst cand)
           (py_range (max (start_position inst - 1) 0) (nb_positions inst - 1)) 0 =
         Inr (spec_color_changes inst cand)"
proof -
  have "\<forall>p\<in>set (py_range (max (start_position inst - 1) 0) (nb_positions inst - 1)).
          0 \<le> p \<and> p + 1 < int (length (spec_sequence inst cand))"
    by (auto simp: py_range_def spec_sequence_length [OF vc])
  then show ?thesis
    using color_loop_count [OF _ spec_sequence_classes [OF vi vc]]
    by (simp add: spec_color_changes_def py_range_def)
qed

lemma objectives_valid:
  assumes vi: "valid_instance inst" and vc: "valid_candidate inst cand"
  shows "objectives inst (map PInt cand) =
           Inr (spec_color_changes inst cand, spec_high_total inst cand, spec_low_total inst cand)"
proof -
  have "\<forall>opt\<in>set (py_range 0 (nb_options inst)). 0 \<le> opt \<and> opt < nb_options inst"
    by (auto simp: py_range_def)
  then have "option_loop inst (spec_sequence inst cand) (py_range 0 (nb_options inst)) (0, 0) =
      Inr (spec_high_total inst cand, spec_low_total inst cand)"
    by (simp add: option_loop_sum [OF vi vc] spec_high_total_def spec_low_total_def py_range_def)
  then show ?thesis
    by (simp add: objectives_def reconstruct_valid [OF vi vc] color_loop_valid [OF vi vc])
qed

lemma validate_valid:
  assumes vi: "start_position inst \<le> nb_positions inst" and vc: "valid_candidate inst cand"
    and sq: "as_sequence solution = Some (map PInt cand)"
  shows "validate inst solution = Inr (Some (map PInt cand))"
proof -
  have "\<forall>p\<in>set (py_range 0 (start_position inst)). 0 \<le> p \<and> p < int (length cand)"
    using vi vc by (auto simp: py_range_def valid_candidate_def)
  then have "fixed_loop (map PInt cand) (py_range 0 (start_position inst)) = Inr True"
    using vc by (simp add: fixed_loop_ints valid_candidate_def py_range_def)
  then show ?thesis
    using vc by (simp add: validate_def sq py_sorted_ints valid_candidate_def py_range_def)
qed

lemma evaluate_valid:
  assumes "valid_instance inst" and "valid_candidate inst cand"
    and "as_sequence solution = Some (map PInt cand)"
  shows "evaluate_solution inst solution =
           Inr (combine (objective_order inst) (spec_color_changes inst cand)
                  (spec_high_total inst cand) (spec_low_total inst cand))"
proof -
  have "start_position inst \<le> nb_positions inst"
    using assms(1) by (simp add: valid_instance_def)
  then show ?thesis
    by (simp add: evaluate_solution_def validate_valid [OF _ assms(2,3)]
        objectives_valid [OF assms(1,2)])
qed

lemma spec_color_changes_nonneg: "0 \<le> spec_color_changes inst cand"
  by (simp add: spec_color_changes_def)

lemma spec_option_total_nonneg: "0 \<le> spec_option_total inst cand opt"
  unfolding spec_option_total_def
  by (rule sum_list_nonneg) (auto simp: spec_window_violation_def)

lemma spec_high_total_nonneg: "0 \<le> spec_high_total inst cand"
  unfolding spec_high_total_def
  by (rule sum_list_nonneg) (auto simp: spec_option_total_nonneg)

lemma spec_low_total_nonneg: "0 \<le> spec_low_total inst cand"
  unfolding spec_low_total_def
  by (rule sum_list_nonneg) (auto simp: spec_option_total_nonneg)

subsection \<open>Loading and shuffling\<close>

lemma load_instance_adjusts_order:
  assumes "load_instance (n_pos # n_opts # n_classes # batch # order # start # ts) = Inr inst"
    and "\<not> has_low_priority_options inst"
  shows "objective_order inst =
           (if order = 0 then 3 else if order = 1 \<or> order = 2 then 4 else order)"
  using assms
  by (auto simp: adjust_order_def COLOR_HIGH_LOW_def HIGH_LOW_COLOR_def HIGH_COLOR_LOW_def
      COLOR_HIGH_def HIGH_COLOR_def split: sum.splits prod.splits if_splits)

lemma init_reads_file: "arg_instance_file a = Some tokens \<Longrightarrow> init a = load_instance tokens"
  by (simp add: init_def)

lemma init_structured_order:
  "arg_instance_file a = None \<Longrightarrow> init a = Inr inst \<Longrightarrow>
   arg_objective_order a = Some (objective_order inst)"
  by (auto simp: init_def split: if_splits)

lemma shuffle_loop_mset: "i < length x \<Longrightarrow> mset (shuffle_loop src i x) = mset x"
proof (induction i arbitrary: x)
  case 0
  then show ?case by simp
next
  case (Suc i)
  let ?j = "randbelow src (Suc i + 1)"
  have "?j < Suc i + 1" by (simp add: randbelow_def)
  then have j: "?j < length x" using Suc.prems by simp
  have "mset (x[Suc i := x ! ?j, ?j := x ! Suc i]) = mset x"
    using Suc.prems j by (simp add: mset_swap)
  moreover have "i < length (x[Suc i := x ! ?j, ?j := x ! Suc i])"
    using Suc.prems by simp
  ultimately show ?case
    using Suc.IH [of "x[Suc i := x ! ?j, ?j := x ! Suc i]"] by (simp add: Let_def)
qed

lemma shuffle_mset: "mset (shuffle src x) = mset x"
proof (cases x)
  case Nil
  then show ?thesis by (simp add: shuffle_def)
next
  case (Cons a as)
  then show ?thesis by (simp add: shuffle_def shuffle_loop_mset)
qed

lemma random_solution_mset:
  assumes "0 \<le> start_position inst" and "start_position inst \<le> nb_positions inst"
  shows "mset (random_solution src inst) = mset [0..nb_positions inst - 1]"
proof -
  have "[0..nb_positions inst - 1] =
      [0..start_position inst - 1] @ [start_position inst..nb_positions inst - 1]"
  proof (cases "start_position inst = nb_positions inst")
    case True
    then show ?thesis by simp
  next
    case False
    then show ?thesis
      using assms upto_split1 [of 0 "start_position inst" "nb_positions inst - 1"] by simp
  qed
  then show ?thesis
    by (simp add: random_solution_def Let_def py_range_def shuffle_mset)
qed

lemma random_solution_prefix:
  assumes "0 \<le> p" and "p < start_position inst"
  shows "random_solution src inst ! nat p = p"
proof -
  have "nat p < length [0..start_position inst - 1]"
    using assms by simp
  then have "random_solution src inst ! nat p = [0..start_position inst - 1] ! nat p"
    by (simp add: random_solution_def Let_def py_range_def nth_append)
  also have "\<dots> = p"
    using assms nth_upto [of 0 "nat p" "start_position inst - 1"] by simp
  finally show ?thesis .
qed

lemma random_solution_candidate:
  assumes "0 \<le> start_position inst" and "start_position inst \<le> nb_positions inst"
  shows "valid_candidate inst (random_solution src inst)"
proof -
  let ?r = "random_solution src inst"
  have m: "mset ?r = mset [0..nb_positions inst - 1]"
    by (rule random_solution_mset [OF assms])
  have "length ?r = length [0..nb_positions inst - 1]"
    using m by (metis size_mset)
  then have l: "int (length ?r) = nb_positions inst"
    using assms by simp
  have s: "sort ?r = [0..nb_positions inst - 1]"
    using m by (intro properties_for_sort) simp_all
  have "list_all (\<lambda>p. ?r ! nat p = p) [0..start_position inst - 1]"
    by (simp add: list_all_iff random_solution_prefix)
  then show ?thesis
    using l s by (simp add: valid_candidate_def)
qed

section \<open>The evaluator against its specification\<close>

text \<open>
  Claim C1. For a valid instance and a valid candidate (given as a list or a tuple of
  integers), the high-priority and low-priority totals that \<open>evaluate_solution\<close>
  computes and combines are the specified ones: for every option, with window size
  \<open>w\<close> and capacity \<open>cap\<close>, the violations \<open>max(count - cap, 0)\<close> of the windows starting
  at \<open>max(0, start_position - w + 1)\<close> up to \<open>position_count - w\<close>, where \<open>count\<close> is the
  number of positions of the window whose reconstructed class requires the option,
  summed into the high-priority total when the option is of high priority and into
  the low-priority total otherwise.
\<close>

theorem option_window_totals:
  assumes "valid_instance inst" and "valid_candidate inst cand"
    and "as_sequence solution = Some (map PInt cand)"
  shows "\<exists>c. objectives inst (map PInt cand) =
               Inr (c, spec_high_total inst cand, spec_low_total inst cand)
           \<and> evaluate_solution inst solution =
               Inr (combine (objective_order inst) c
                      (spec_high_total inst cand) (spec_low_total inst cand))"
  using objectives_valid [OF assms(1,2)] evaluate_valid [OF assms] by blast

text \<open>
  On three cars of one class requiring the only option, with windows of two and
  capacity one, the windows \<open>[0,1]\<close> and \<open>[1,2]\<close> violate by one each: the total is 2,
  high when the option is of high priority and low when it is not.
\<close>

theorem option_window_totals_witness:
  "valid_instance (window_example True)
   \<and> valid_candidate (window_example True) [0, 1, 2]
   \<and> spec_window_violation (window_example True) [0, 1, 2] 0 0 = 1
   \<and> spec_window_violation (window_example True) [0, 1, 2] 0 1 = 1
   \<and> spec_high_total (window_example True) [0, 1, 2] = 2
   \<and> objectives (window_example True) (map PInt [0, 1, 2]) = Inr (0, 2, 0)
   \<and> objectives (window_example False) (map PInt [0, 1, 2]) = Inr (0, 0, 2)
   \<and> evaluate_solution (window_example True) (PyList (map PInt [0, 1, 2])) = Inr 2"
proof -
  have v: "valid_instance (window_example True)" by code_simp
  have c: "valid_candidate (window_example True) [0, 1, 2]" by code_simp
  have s: "as_sequence (PyList (map PInt [0, 1, 2])) = Some (map PInt [0, 1, 2])" by simp
  have w0: "spec_window_violation (window_example True) [0, 1, 2] 0 0 = 1" by code_simp
  have w1: "spec_window_violation (window_example True) [0, 1, 2] 0 1 = 1" by code_simp
  have h: "spec_high_total (window_example True) [0, 1, 2] = 2" by code_simp
  have o: "objectives (window_example True) (map PInt [0, 1, 2]) = Inr (0, 2, 0)" by code_simp
  have o': "objectives (window_example False) (map PInt [0, 1, 2]) = Inr (0, 0, 2)" by code_simp
  have e: "evaluate_solution (window_example True) (PyList (map PInt [0, 1, 2])) = Inr 2"
    by code_simp
  show ?thesis
    using option_window_totals [OF v c s] v c w0 w1 h o o' e by simp
qed

text \<open>
  Claim C2. For a valid instance and a valid candidate, the colour component that
  \<open>evaluate_solution\<close> computes and combines is the number of positions \<open>p\<close> from
  \<open>max(start_position - 1, 0)\<close> to \<open>position_count - 2\<close> at which the colour of the
  reconstructed class differs from the colour at \<open>p + 1\<close>, the reconstructed sequence
  being \<open>sequence[p] = baseline_sequence[candidate[p]]\<close>.
\<close>

theorem color_component:
  assumes "valid_instance inst" and "valid_candidate inst cand"
    and "as_sequence solution = Some (map PInt cand)"
  shows "\<exists>h l. objectives inst (map PInt cand) = Inr (spec_color_changes inst cand, h, l)
           \<and> evaluate_solution inst solution =
               Inr (combine (objective_order inst) (spec_color_changes inst cand) h l)"
  using objectives_valid [OF assms(1,2)] evaluate_valid [OF assms] by blast

text \<open>
  Five positions of alternating colours, no option and an order code outside 0..4:
  the identity permutation has colour component 4 and score 4.
\<close>

theorem color_component_witness:
  "valid_instance (alternating_example 5 0)
   \<and> valid_candidate (alternating_example 5 0) [0, 1, 2, 3, 4]
   \<and> spec_color_changes (alternating_example 5 0) [0, 1, 2, 3, 4] = 4
   \<and> objectives (alternating_example 5 0) (map PInt [0, 1, 2, 3, 4]) = Inr (4, 0, 0)
   \<and> evaluate_solution (alternating_example 5 0) (PyList (map PInt [0, 1, 2, 3, 4])) = Inr 4"
proof -
  have v: "valid_instance (alternating_example 5 0)" by code_simp
  have c: "valid_candidate (alternating_example 5 0) [0, 1, 2, 3, 4]" by code_simp
  have s: "as_sequence (PyList (map PInt [0, 1, 2, 3, 4])) = Some (map PInt [0, 1, 2, 3, 4])"
    by simp
  have k: "spec_color_changes (alternating_example 5 0) [0, 1, 2, 3, 4] = 4" by code_simp
  have o: "objectives (alternating_example 5 0) (map PInt [0, 1, 2, 3, 4]) = Inr (4, 0, 0)"
    by code_simp
  have e: "evaluate_solution (alternating_example 5 0) (PyList (map PInt [0, 1, 2, 3, 4])) = Inr 4"
    by code_simp
  show ?thesis
    using color_component [OF v c s] v c k o e by simp
qed

text \<open>
  Claim C3. For a valid instance and a valid candidate, the score returned is the
  combination of the three totals selected by \<open>objective_order\<close>, with the scale
  \<open>10000\<close>: code 0 gives \<open>color * M^2 + high * M + low\<close>, code 1 gives
  \<open>high * M^2 + low * M + color\<close>, code 2 gives \<open>high * M^2 + color * M + low\<close>, code 3
  gives \<open>color * M + high\<close>, code 4 gives \<open>high * M + color\<close>, and any other code gives
  \<open>color + high + low\<close>.
\<close>

theorem combination_by_order:
  assumes "valid_instance inst" and "valid_candidate inst cand"
    and "as_sequence solution = Some (map PInt cand)"
  shows "evaluate_solution inst solution =
     Inr (let color = spec_color_changes inst cand;
              high = spec_high_total inst cand;
              low = spec_low_total inst cand
          in if objective_order inst = 0 then color * 10000 ^ 2 + high * 10000 + low
             else if objective_order inst = 1 then high * 10000 ^ 2 + low * 10000 + color
             else if objective_order inst = 2 then high * 10000 ^ 2 + color * 10000 + low
             else if objective_order inst = 3 then color * 10000 + high
             else if objective_order inst = 4 then high * 10000 + color
             else color + high + low)"
  unfolding evaluate_valid [OF assms]
  by (simp add: combine_def M_def Let_def COLOR_HIGH_LOW_def HIGH_LOW_COLOR_def
      HIGH_COLOR_LOW_def COLOR_HIGH_def HIGH_COLOR_def)

text \<open>
  The alternating instance under code 3 (colour, then high) and no option:
  \<open>4 * 10000 + 0 = 40000\<close>.
\<close>

theorem combination_by_order_witness:
  "valid_instance (alternating_example 3 0)
   \<and> valid_candidate (alternating_example 3 0) [0, 1, 2, 3, 4]
   \<and> objective_order (alternating_example 3 0) = 3
   \<and> evaluate_solution (alternating_example 3 0) (PyList (map PInt [0, 1, 2, 3, 4])) = Inr 40000"
proof -
  have v: "valid_instance (alternating_example 3 0)" by code_simp
  have c: "valid_candidate (alternating_example 3 0) [0, 1, 2, 3, 4]" by code_simp
  have s: "as_sequence (PyList (map PInt [0, 1, 2, 3, 4])) = Some (map PInt [0, 1, 2, 3, 4])"
    by simp
  have k: "spec_color_changes (alternating_example 3 0) [0, 1, 2, 3, 4] = 4" by code_simp
  have h: "spec_high_total (alternating_example 3 0) [0, 1, 2, 3, 4] = 0" by code_simp
  have r: "objective_order (alternating_example 3 0) = 3" by code_simp
  show ?thesis
    using combination_by_order [OF v c s] v c by (simp add: k h r)
qed

section \<open>Rejected candidates\<close>




text \<open>
  Claim C5. A candidate that is a permutation of \<open>0..position_count-1\<close> but has
  \<open>candidate[p] \<noteq> p\<close> at some position \<open>p\<close> before \<open>start_position\<close> makes
  \<open>evaluate_solution\<close> return the sentinel penalty.
\<close>

theorem fixed_prefix_penalty:
  assumes "as_sequence solution = Some (map PInt cand)"
    and "int (length cand) = nb_positions inst"
    and "sort cand = [0..nb_positions inst - 1]"
    and "0 \<le> p" and "p < start_position inst" and "p < nb_positions inst"
    and "cand ! nat p \<noteq> p"
  shows "evaluate_solution inst solution = Inr PENALTY"
proof -
  have "fixed_loop (map PInt cand) (py_range 0 (start_position inst)) = Inr False"
    using assms(2,4-7)
    by (intro fixed_loop_mismatch [where p = p]) (simp_all add: py_range_def)
  then have "validate inst solution = Inr None"
    using assms(2,3) by (simp add: validate_def assms(1) py_sorted_ints py_range_def)
  then show ?thesis
    by (simp add: evaluate_solution_def)
qed

text \<open>
  With the first two positions fixed, the permutation that exchanges them is rejected.
\<close>

theorem fixed_prefix_penalty_witness:
  "sort [1, 0, 2, 3, 4] = [0..nb_positions (alternating_example 5 2) - 1]
   \<and> (0::int) < start_position (alternating_example 5 2)
   \<and> [1, 0, 2, 3, 4] ! nat 0 \<noteq> (0::int)
   \<and> evaluate_solution (alternating_example 5 2) (PyList (map PInt [1, 0, 2, 3, 4])) = Inr PENALTY"
proof -
  have a: "int (length [1, 0, 2, 3, 4 :: int]) = nb_positions (alternating_example 5 2)"
    by code_simp
  have b: "sort [1, 0, 2, 3, 4] = [0..nb_positions (alternating_example 5 2) - 1]"
    by code_simp
  have c: "(0::int) < start_position (alternating_example 5 2)" by code_simp
  have d: "(0::int) < nb_positions (alternating_example 5 2)" by code_simp
  have e: "[1, 0, 2, 3, 4] ! nat 0 \<noteq> (0::int)" by simp
  have s: "as_sequence (PyList (map PInt [1, 0, 2, 3, 4])) = Some (map PInt [1, 0, 2, 3, 4])"
    by simp
  show ?thesis
    using fixed_prefix_penalty [OF s a b _ c d e] b c e by simp
qed

text \<open>
  Claim C10, as amended. An input that is neither a list nor a tuple (\<open>None\<close>, a
  string, a number, a set, a generator) makes \<open>evaluate_solution\<close> return the sentinel
  penalty: the type of the candidate is tested before its length and its contents.
\<close>

theorem not_a_sequence_penalty:
  assumes "as_sequence solution = None"
  shows "evaluate_solution inst solution = Inr PENALTY"
  using assms by (simp add: evaluate_solution_def validate_def)

theorem not_a_sequence_penalty_witness:
  "evaluate_solution (window_example True) PyNone = Inr PENALTY
   \<and> evaluate_solution (window_example True) (PyStr ''012'') = Inr PENALTY
   \<and> evaluate_solution (window_example True) (PyObject ''set'') = Inr PENALTY
   \<and> evaluate_solution (window_example True) (PyObject ''generator'') = Inr PENALTY"
  using not_a_sequence_penalty [of PyNone "window_example True"]
    not_a_sequence_penalty [of "PyStr ''012''" "window_example True"]
    not_a_sequence_penalty [of "PyObject ''set''" "window_example True"]
    not_a_sequence_penalty [of "PyObject ''generator''" "window_example True"]
  by simp

text \<open>
  The guard covers the type of the candidate only, not the type of its elements: a
  list of the right length that holds \<open>None\<close> beside integers passes the guard and the
  length test, and \<open>sorted\<close> raises \<open>TypeError\<close> when it compares the elements.
\<close>

theorem unorderable_elements_raise:
  "evaluate_solution (window_example True) (PyList [PInt 0, PInt 1, PNone]) = Inl TypeError"
  by code_simp

section \<open>The sentinel and the zero score\<close>




text \<open>
  Claim C8, as amended. For a valid instance and a valid candidate the score is zero
  exactly when every total that the formula of the instance's \<open>objective_order\<close> uses
  is zero: colour, high and low for the codes 0, 1, 2 and the fallback, colour and
  high alone for the two-term codes 3 and 4, which leave the low-priority total out.
\<close>

theorem zero_score_iff:
  assumes "valid_instance inst" and "valid_candidate inst cand"
    and "as_sequence solution = Some (map PInt cand)"
  shows "evaluate_solution inst solution = Inr 0 \<longleftrightarrow>
           spec_color_changes inst cand = 0 \<and> spec_high_total inst cand = 0
           \<and> (spec_low_total inst cand = 0
               \<or> objective_order inst = 3 \<or> objective_order inst = 4)"
proof -
  let ?c = "spec_color_changes inst cand"
  let ?h = "spec_high_total inst cand"
  let ?l = "spec_low_total inst cand"
  have n: "0 \<le> ?c" "0 \<le> ?h" "0 \<le> ?l"
    by (rule spec_color_changes_nonneg spec_high_total_nonneg spec_low_total_nonneg)+
  have "combine (objective_order inst) ?c ?h ?l = 0 \<longleftrightarrow>
          ?c = 0 \<and> ?h = 0 \<and> (?l = 0 \<or> objective_order inst = 3 \<or> objective_order inst = 4)"
    using n
    by (auto simp: combine_def M_def COLOR_HIGH_LOW_def HIGH_LOW_COLOR_def
        HIGH_COLOR_LOW_def COLOR_HIGH_def HIGH_COLOR_def)
  then show ?thesis
    by (simp add: evaluate_valid [OF assms])
qed

text \<open>
  The alternating instance: with every position fixed no pair of positions is scored
  and the score is zero; with no position fixed, a candidate with one colour change
  does not score zero.
\<close>

theorem zero_score_iff_witness:
  "valid_instance (alternating_example 5 5)
   \<and> valid_candidate (alternating_example 5 5) [0, 1, 2, 3, 4]
   \<and> spec_color_changes (alternating_example 5 5) [0, 1, 2, 3, 4] = 0
   \<and> evaluate_solution (alternating_example 5 5) (PyList (map PInt [0, 1, 2, 3, 4])) = Inr 0
   \<and> valid_instance (alternating_example 5 0)
   \<and> valid_candidate (alternating_example 5 0) [0, 2, 4, 1, 3]
   \<and> spec_color_changes (alternating_example 5 0) [0, 2, 4, 1, 3] = 1
   \<and> evaluate_solution (alternating_example 5 0) (PyList (map PInt [0, 2, 4, 1, 3])) \<noteq> Inr 0"
proof -
  have v: "valid_instance (alternating_example 5 0)" by code_simp
  have c: "valid_candidate (alternating_example 5 0) [0, 2, 4, 1, 3]" by code_simp
  have s: "as_sequence (PyList (map PInt [0, 2, 4, 1, 3])) = Some (map PInt [0, 2, 4, 1, 3])"
    by simp
  have k: "spec_color_changes (alternating_example 5 0) [0, 2, 4, 1, 3] = 1" by code_simp
  have v': "valid_instance (alternating_example 5 5)" by code_simp
  have c': "valid_candidate (alternating_example 5 5) [0, 1, 2, 3, 4]" by code_simp
  have s': "as_sequence (PyList (map PInt [0, 1, 2, 3, 4])) = Some (map PInt [0, 1, 2, 3, 4])"
    by simp
  have k': "spec_color_changes (alternating_example 5 5) [0, 1, 2, 3, 4] = 0" by code_simp
  have h': "spec_high_total (alternating_example 5 5) [0, 1, 2, 3, 4] = 0" by code_simp
  have l': "spec_low_total (alternating_example 5 5) [0, 1, 2, 3, 4] = 0" by code_simp
  have "evaluate_solution (alternating_example 5 5) (PyList (map PInt [0, 1, 2, 3, 4])) = Inr 0"
    using zero_score_iff [OF v' c' s'] by (simp add: k' h' l')
  moreover have
    "evaluate_solution (alternating_example 5 0) (PyList (map PInt [0, 2, 4, 1, 3])) \<noteq> Inr 0"
    using zero_score_iff [OF v c s] by (simp add: k)
  ultimately show ?thesis
    using v c k v' c' k' by simp
qed

text \<open>
  A zero score does not mean that no window is violated: under the order colour, high
  (code 3) an instance with a low-priority option scores zero while a window of that
  option holds two cars against a capacity of one. The instance is the one the loader
  builds from \<open>low_ignored_tokens\<close>.
\<close>

theorem low_violation_scores_zero:
  "load_instance low_ignored_tokens = Inr low_ignored_example
   \<and> valid_instance low_ignored_example
   \<and> valid_candidate low_ignored_example [0, 1]
   \<and> has_low_priority_options low_ignored_example
   \<and> spec_window_violation low_ignored_example [0, 1] 0 0 = 1
   \<and> objectives low_ignored_example (map PInt [0, 1]) = Inr (0, 0, 1)
   \<and> evaluate_solution low_ignored_example (PyList (map PInt [0, 1])) = Inr 0"
  by code_simp

section \<open>Construction and random candidates\<close>

text \<open>
  Claim C7. Construction from the structured parameter set does not normalise
  \<open>objective_order\<close>: given the order colour, high, low (code 0) and
  \<open>has_low_priority_options = False\<close>, \<open>__init__\<close> stores code 0 as it is, while the
  same data read from an instance file come out with the two-term code 3.
\<close>

theorem structured_init_keeps_order:
  "init structured_args = Inr ((window_example True)\<lparr>objective_order := COLOR_HIGH_LOW\<rparr>)
   \<and> init file_args = Inr (window_example True)
   \<and> objective_order (window_example True) = COLOR_HIGH
   \<and> has_low_priority_options (window_example True) = False"
  by code_simp

text \<open>
  Claim C9. When \<open>0 \<le> start_position \<le> position_count\<close>, whatever the random draws,
  \<open>random_solution\<close> returns a permutation of \<open>0..position_count-1\<close> that holds \<open>p\<close> at
  every position \<open>p\<close> before \<open>start_position\<close>, and \<open>evaluate_solution\<close>'s validation
  accepts it.
\<close>

theorem random_solution_valid:
  assumes "0 \<le> start_position inst" and "start_position inst \<le> nb_positions inst"
  shows "int (length (random_solution src inst)) = nb_positions inst
       \<and> sort (random_solution src inst) = [0..nb_positions inst - 1]
       \<and> list_all (\<lambda>p. random_solution src inst ! nat p = p) [0..start_position inst - 1]
       \<and> validate inst (PyList (map PInt (random_solution src inst)))
           = Inr (Some (map PInt (random_solution src inst)))"
proof -
  have c: "valid_candidate inst (random_solution src inst)"
    by (rule random_solution_candidate [OF assms])
  have "validate inst (PyList (map PInt (random_solution src inst)))
      = Inr (Some (map PInt (random_solution src inst)))"
    by (rule validate_valid [OF assms(2) c]) simp
  then show ?thesis
    using c by (simp add: valid_candidate_def)
qed

text \<open>
  Five positions with the first two fixed: with every draw equal to zero the shuffle
  turns \<open>[2, 3, 4]\<close> into \<open>[3, 4, 2]\<close>.
\<close>

theorem random_solution_valid_witness:
  "0 \<le> start_position (alternating_example 5 2)
   \<and> start_position (alternating_example 5 2) \<le> nb_positions (alternating_example 5 2)
   \<and> random_solution (\<lambda>k. 0) (alternating_example 5 2) = [0, 1, 3, 4, 2]
   \<and> sort [0, 1, 3, 4, 2] = [0..nb_positions (alternating_example 5 2) - 1]
   \<and> validate (alternating_example 5 2) (PyList (map PInt [0, 1, 3, 4, 2]))
       = Inr (Some (map PInt [0, 1, 3, 4, 2]))"
proof -
  have a: "0 \<le> start_position (alternating_example 5 2)" by code_simp
  have b: "start_position (alternating_example 5 2) \<le> nb_positions (alternating_example 5 2)"
    by code_simp
  have r: "random_solution (\<lambda>k. 0) (alternating_example 5 2) = [0, 1, 3, 4, 2]"
    by code_simp
  show ?thesis
    using random_solution_valid [OF a b, of "\<lambda>k. 0"] a b unfolding r by simp
qed

end
